theory Spec2Isabelle
  imports Main "HOL-Library.Sublist"
begin

section \<open>Strings\<close>

text \<open>
  The source is TypeScript; its strings are sequences of code units. The model uses
  \<^typ>\<open>string\<close> (a list of 8-bit characters) and reads them as ASCII text: the structural
  characters the code tests for (\<open>:\<close>, \<open>,\<close>, \<open>=\<close>, \<open>|\<close>, space, letters, digits) are all ASCII.
  \<open>toLowerCase\<close> maps \<open>A\<close>..\<open>Z\<close> to \<open>a\<close>..\<open>z\<close> and leaves every other character alone.
\<close>

definition newline :: string where
  "newline = [CHR 0x0A]"

definition isUpper :: "char \<Rightarrow> bool" where
  "isUpper c = (65 \<le> (of_char c :: nat) \<and> (of_char c :: nat) \<le> 90)"

definition isLower :: "char \<Rightarrow> bool" where
  "isLower c = (97 \<le> (of_char c :: nat) \<and> (of_char c :: nat) \<le> 122)"

definition isDigit :: "char \<Rightarrow> bool" where
  "isDigit c = (48 \<le> (of_char c :: nat) \<and> (of_char c :: nat) \<le> 57)"

text \<open>The character class \<open>[a-z]\<close> under the flag \<open>i\<close>: an ASCII letter of either case.\<close>

definition isLetter :: "char \<Rightarrow> bool" where
  "isLetter c = (isLower c \<or> isUpper c)"

definition toLowerCaseChar :: "char \<Rightarrow> char" where
  "toLowerCaseChar c = (if isUpper c then char_of ((of_char c :: nat) + 32) else c)"

definition toLowerCase :: "string \<Rightarrow> string" where
  "toLowerCase s = map toLowerCaseChar s"

text \<open>\<open>s.startsWith(p)\<close>, \<open>s.endsWith(p)\<close> and \<open>s.includes(p)\<close>.\<close>

fun startsWith :: "string \<Rightarrow> string \<Rightarrow> bool" where
  "startsWith s [] = True"
| "startsWith [] (p # ps) = False"
| "startsWith (c # cs) (p # ps) = (c = p \<and> startsWith cs ps)"

definition endsWith :: "string \<Rightarrow> string \<Rightarrow> bool" where
  "endsWith s p = startsWith (rev s) (rev p)"

fun includesStr :: "string \<Rightarrow> string \<Rightarrow> bool" where
  "includesStr [] p = (p = [])"
| "includesStr (c # cs) p = (startsWith (c # cs) p \<or> includesStr cs p)"

text \<open>
  \<open>s.slice(0, end)\<close>: a negative \<open>end\<close> counts from the end of the string, and the
  bounds are clamped to the string.
\<close>

definition slice0 :: "string \<Rightarrow> int \<Rightarrow> string" where
  "slice0 s e =
     (let len = int (length s);
          to = (if e < 0 then max (len + e) 0 else min e len)
      in take (nat to) s)"

section \<open>Key and query sanitisation (\<open>src/codeActions/jmx.ts\<close>)\<close>

text \<open>The character class \<open>[a-zA-Z0-9_.]\<close>.\<close>

definition keyChar :: "char \<Rightarrow> bool" where
  "keyChar c = (isLower c \<or> isUpper c \<or> isDigit c \<or> c = CHR ''_'' \<or> c = CHR ''.'')"

text \<open>
  \<open>ConvertMetricKey\<close>: three global replacements and a final dot. The classes
  \<open>[:|,]\<close> and \<open>[=| ]\<close> both contain the bar character.
\<close>

definition ConvertMetricKey :: "string \<Rightarrow> string" where
  "ConvertMetricKey fullPath =
     (let metricKey = map (\<lambda>c. if c = CHR '':'' \<or> c = CHR ''|'' \<or> c = CHR '','' then CHR ''.'' else c) fullPath;
          metricKey = map (\<lambda>c. if c = CHR ''='' \<or> c = CHR ''|'' \<or> c = CHR '' '' then CHR ''_'' else c) metricKey;
          metricKey = filter keyChar metricKey
      in metricKey @ ''.'')"

text \<open>\<open>fullPath.replace(/=,/g, "=*,")\<close>: every match, left to right.\<close>

fun replaceEqComma :: "string \<Rightarrow> string" where
  "replaceEqComma (a # b # cs) =
     (if a = CHR ''='' \<and> b = CHR '','' then ''=*,'' @ replaceEqComma cs
      else a # replaceEqComma (b # cs))"
| "replaceEqComma cs = cs"

definition formatQuery :: "string \<Rightarrow> string" where
  "formatQuery fullPath =
     (let query = replaceEqComma fullPath
      in if endsWith query ''='' then query @ ''*'' else query)"

text \<open>
  The key of a numeric metric, as \<open>createQueryInsertions\<close> builds it (the same lines in
  both branches of the loop body).
\<close>

definition trueMetricKey :: "string \<Rightarrow> string \<Rightarrow> string" where
  "trueMetricKey fullPath metricName =
     (let metricKey = ConvertMetricKey fullPath;
          trueMetricKey = metricKey @ toLowerCase metricName
      in if length trueMetricKey > 250 then
           (let metricKeyLength = length (toLowerCase metricName);
                trueSize = 249 - int metricKeyLength;
                trueMetricKey = slice0 metricKey trueSize
            in trueMetricKey @ ''.'' @ toLowerCase metricName)
         else trueMetricKey)"

section \<open>Scraped data\<close>

text \<open>
  \<open>createQueryInsertions\<close> walks \<open>jmxData[domain].data[mbean].data\<close>, a list of elements
  with \<open>fullPath\<close>, \<open>properties\<close> and \<open>metrics\<close>. The data comes out of \<open>JSON.parse\<close> and is
  only cast to its type, so a field may be absent or hold something else than the type
  says. The model keeps that: a field is \<open>None\<close> when the loop body throws a \<open>TypeError\<close>
  on using it: \<open>fullPath\<close> and \<open>name\<close> when they are not strings (\<open>replace\<close> and
  \<open>toLowerCase\<close> are called on them), \<open>properties\<close> when it is absent or null
  (\<open>Object.entries\<close>), \<open>metrics\<close> when it cannot be iterated. \<open>numeric\<close> is read for its
  truth value only. An object is the list of its entries in \<open>Object.entries\<close> order; the
  values of the properties are never read. The containers above the elements can be
  absent as well: \<open>jmxData\<close>, the \<open>data\<close> of a domain and the \<open>data\<close> of an mbean are \<open>None\<close>
  when \<open>Object.entries\<close>, the property access or the iteration throws on them. An
  element or a metric that is null throws at its first field: it is the element with no
  \<open>fullPath\<close>, the metric with no \<open>name\<close>.
\<close>

datatype error = TypeError | IllegalLine

record mBeanMetric =
  name :: "string option"
  numeric :: bool

record mBeanElement =
  fullPath :: "string option"
  properties :: "(string \<times> string) list option"
  metrics :: "mBeanMetric list option"

type_synonym mBean = "string \<times> mBeanElement list option"

type_synonym jmxDomain = "string \<times> mBean list option"

record jmxDataResponse =
  jmxData :: "jmxDomain list option"
  process_name :: "string option"

section \<open>The editor's document and the code action\<close>

record Position =
  line :: nat
  character :: nat

record Range =
  start :: Position
  endPos :: Position

record TextDocument =
  uri :: string
  lines :: "string list"

datatype CodeActionKind = QuickFix

record InsertEdit =
  editUri :: string
  insertPosition :: Position
  newText :: string

record CodeAction =
  title :: string
  kind :: CodeActionKind
  edit :: InsertEdit

definition lineCount :: "TextDocument \<Rightarrow> nat" where
  "lineCount document = length (lines document)"

text \<open>\<open>document.lineAt(n)\<close> throws when the document has no line \<open>n\<close>.\<close>

definition lineAt :: "TextDocument \<Rightarrow> nat \<Rightarrow> error + string" where
  "lineAt document n =
     (if n < lineCount document then Inr (lines document ! n) else Inl IllegalLine)"

fun joinLines :: "string list \<Rightarrow> string" where
  "joinLines [] = []"
| "joinLines [l] = l"
| "joinLines (l # ls) = l @ newline @ joinLines ls"

definition getText :: "TextDocument \<Rightarrow> string" where
  "getText document = joinLines (lines document)"

text \<open>
  \<open>/^jmx:/gm.test(text)\<close>: under the flag \<open>m\<close> the anchor matches at the start of the text
  and after a line terminator. The flag is evaluated on a fresh regular expression at
  every call, so the search starts at index 0.
\<close>

definition isLineTerminator :: "char \<Rightarrow> bool" where
  "isLineTerminator c = (c = CHR 0x0A \<or> c = CHR 0x0D)"

fun testAtLineStart :: "string \<Rightarrow> bool \<Rightarrow> string \<Rightarrow> bool" where
  "testAtLineStart p atStart [] = (atStart \<and> p = [])"
| "testAtLineStart p atStart (c # cs) =
     ((atStart \<and> startsWith (c # cs) p) \<or> testAtLineStart p (isLineTerminator c) cs)"

definition testJmx :: "string \<Rightarrow> bool" where
  "testJmx txt = testAtLineStart ''jmx:'' True txt"

text \<open>\<open>/[a-z]/i.exec(s)\<close>: the index of the first letter, if there is one.\<close>

fun execLetter :: "string \<Rightarrow> nat option" where
  "execLetter [] = None"
| "execLetter (c # cs) = (if isLetter c then Some 0 else map_option Suc (execLetter cs))"

section \<open>\<open>createInsertAction\<close>\<close>

text \<open>
  The function is the same text in both revisions of the provider. \<open>indentJMXSnippet\<close>
  is imported from \<open>./utils/snippetBuildingUtils\<close>; the model takes it as a parameter, so
  what is proved holds for every way of indenting.
\<close>

definition createInsertAction ::
  "(string \<Rightarrow> nat \<Rightarrow> string) \<Rightarrow> string \<Rightarrow> string \<Rightarrow> TextDocument \<Rightarrow> Range
    \<Rightarrow> error + CodeAction option" where
  "createInsertAction indentJMXSnippet actionName textToInsert document range' =
     (let textToInsert =
            (if lineCount document = line (start range') + 1 then newline @ textToInsert
             else textToInsert)
      in case lineAt document (line (start range')) of
           Inl e \<Rightarrow> Inl e
         | Inr lineText \<Rightarrow>
             (case execLetter lineText of
                None \<Rightarrow> Inr None
              | Some indent \<Rightarrow>
                  Inr (Some \<lparr>title = actionName, kind = QuickFix,
                    edit = \<lparr>editUri = uri document,
                      insertPosition = \<lparr>line = line (start range') + 1, character = 0\<rparr>,
                      newText = indentJMXSnippet textToInsert indent\<rparr>\<rparr>)))"

section \<open>\<open>createQueryInsertions\<close>\<close>

text \<open>\<open>groupCount.toString()\<close>: the decimal digits of a natural number.\<close>

definition digitChar :: "nat \<Rightarrow> char" where
  "digitChar d = char_of (48 + d)"

function toString :: "nat \<Rightarrow> string" where
  "toString n = (if n < 10 then [digitChar n] else toString (n div 10) @ [digitChar (n mod 10)])"
  by pat_completeness auto
termination
  by (relation "measure id") auto

declare toString.simps [simp del]

text \<open>The loop over \<open>Object.entries(element.properties)\<close>.\<close>

fun propertiesLoop :: "(string \<times> string) list \<Rightarrow> string \<Rightarrow> string" where
  "propertiesLoop [] yamlString = yamlString"
| "propertiesLoop ((key, v) # rest) yamlString =
     propertiesLoop rest
       (yamlString @ ''          - key: '' @ toLowerCase key @ newline
          @ ''            value: property:'' @ key @ newline)"

text \<open>The first loop over \<open>element.metrics\<close>: the attributes that are not numeric.\<close>

fun dimensionLoop :: "mBeanMetric list \<Rightarrow> string \<Rightarrow> error + string" where
  "dimensionLoop [] yamlString = Inr yamlString"
| "dimensionLoop (metric # rest) yamlString =
     (if \<not> numeric metric then
        (case name metric of
           None \<Rightarrow> Inl TypeError
         | Some metricName \<Rightarrow>
             dimensionLoop rest
               (yamlString @ ''          - key: '' @ toLowerCase metricName @ newline
                  @ ''            value: attribute:'' @ metricName @ newline))
      else dimensionLoop rest yamlString)"

text \<open>The second loop over \<open>element.metrics\<close>: the numeric attributes, and \<open>hasMetric\<close>.\<close>

fun metricLoop :: "string \<Rightarrow> mBeanMetric list \<Rightarrow> bool \<times> string \<Rightarrow> error + bool \<times> string" where
  "metricLoop elementFullPath [] st = Inr st"
| "metricLoop elementFullPath (metric # rest) (hasMetric, yamlString) =
     (if numeric metric then
        (case name metric of
           None \<Rightarrow> Inl TypeError
         | Some metricName \<Rightarrow>
             metricLoop elementFullPath rest
               (True,
                yamlString @ ''          - key: '' @ trueMetricKey elementFullPath metricName @ newline
                  @ ''            type: gauge '' @ newline
                  @ ''            value: attribute:'' @ metricName @ newline))
      else metricLoop elementFullPath rest (hasMetric, yamlString))"

text \<open>
  What both branches of the loop body append for one element. The branches differ in one
  line only: \<open>dimensions: \<close> where the group goes on, \<open>dimensions : \<close> where a new group
  starts; \<open>dimensionsLine\<close> is that line.
\<close>

definition constMetric :: string where
  "constMetric = ''          - key: jmx.const.value '' @ newline
     @ ''            type: gauge '' @ newline
     @ ''            value: const:1 '' @ newline"

definition subgroupHead :: "string \<Rightarrow> string \<Rightarrow> string" where
  "subgroupHead dimensionsLine elementFullPath =
     ''       - subgroup: '' @ elementFullPath @ newline
       @ ''         query: '' @ formatQuery elementFullPath @ newline
       @ ''         '' @ dimensionsLine @ newline"

definition subgroupYaml :: "string \<Rightarrow> mBeanElement \<Rightarrow> string \<Rightarrow> error + string" where
  "subgroupYaml dimensionsLine element yamlString =
     (case fullPath element of
        None \<Rightarrow> Inl TypeError
      | Some elementFullPath \<Rightarrow>
          (let yamlString = yamlString @ subgroupHead dimensionsLine elementFullPath
           in case properties element of
                None \<Rightarrow> Inl TypeError
              | Some props \<Rightarrow>
                  (let yamlString = propertiesLoop props yamlString
                   in case metrics element of
                        None \<Rightarrow> Inl TypeError
                      | Some ms \<Rightarrow>
                          (case dimensionLoop ms yamlString of
                             Inl e \<Rightarrow> Inl e
                           | Inr yamlString \<Rightarrow>
                               (case metricLoop elementFullPath ms
                                       (False, yamlString @ ''         metrics: '' @ newline) of
                                  Inl e \<Rightarrow> Inl e
                                | Inr (hasMetric, yamlString) \<Rightarrow>
                                    Inr (if \<not> hasMetric then yamlString @ constMetric
                                         else yamlString))))))"

definition groupHead :: "nat \<Rightarrow> string" where
  "groupHead groupCount =
     ''  - group: group_'' @ toString groupCount @ newline @ ''    subgroups: '' @ newline"

text \<open>The loop body: the state is \<open>(groupCount, subgroupCount, yamlString)\<close>.\<close>

definition elementStep ::
  "mBeanElement \<Rightarrow> nat \<times> nat \<times> string \<Rightarrow> error + nat \<times> nat \<times> string" where
  "elementStep element st =
     (case st of (groupCount, subgroupCount, yamlString) \<Rightarrow>
        if subgroupCount < 10 then
          (case subgroupYaml ''dimensions: '' element yamlString of
             Inl e \<Rightarrow> Inl e
           | Inr yamlString \<Rightarrow> Inr (groupCount, subgroupCount + 1, yamlString))
        else
          (let groupCount = groupCount + 1;
               subgroupCount = 0;
               yamlString = yamlString @ groupHead groupCount
           in case subgroupYaml ''dimensions : '' element yamlString of
                Inl e \<Rightarrow> Inl e
              | Inr yamlString \<Rightarrow> Inr (groupCount, subgroupCount + 1, yamlString)))"

fun elementLoop ::
  "mBeanElement list \<Rightarrow> nat \<times> nat \<times> string \<Rightarrow> error + nat \<times> nat \<times> string" where
  "elementLoop [] st = Inr st"
| "elementLoop (element # rest) st =
     (case elementStep element st of Inl e \<Rightarrow> Inl e | Inr st' \<Rightarrow> elementLoop rest st')"

text \<open>
  The loop over \<open>Object.entries(jmxJSON.jmxData[domain].data)\<close>: iterating the \<open>data\<close> of an
  mbean throws when there is none.
\<close>

fun mbeanLoop :: "mBean list \<Rightarrow> nat \<times> nat \<times> string \<Rightarrow> error + nat \<times> nat \<times> string" where
  "mbeanLoop [] st = Inr st"
| "mbeanLoop ((mbean, None) # rest) st = Inl TypeError"
| "mbeanLoop ((mbean, Some elements) # rest) st =
     (case elementLoop elements st of Inl e \<Rightarrow> Inl e | Inr st' \<Rightarrow> mbeanLoop rest st')"

text \<open>
  The loop over \<open>Object.entries(jmxJSON.jmxData)\<close>: \<open>Object.entries\<close> of the \<open>data\<close> of a
  domain throws when there is none.
\<close>

fun domainLoop :: "jmxDomain list \<Rightarrow> nat \<times> nat \<times> string \<Rightarrow> error + nat \<times> nat \<times> string" where
  "domainLoop [] st = Inr st"
| "domainLoop ((domain, None) # rest) st = Inl TypeError"
| "domainLoop ((domain, Some mbeans) # rest) st =
     (case mbeanLoop mbeans st of Inl e \<Rightarrow> Inl e | Inr st' \<Rightarrow> domainLoop rest st')"

text \<open>
  The first part of \<open>createQueryInsertions\<close>: the loops that build \<open>yamlString\<close>.
  \<open>Object.entries(jmxJSON.jmxData)\<close> throws when the cached object has no \<open>jmxData\<close>.
\<close>

definition initialYaml :: string where
  "initialYaml =
     ''  groups:'' @ newline @ ''  - group: group_'' @ toString 0 @ newline
       @ ''    subgroups: '' @ newline"

definition queryYaml :: "jmxDataResponse \<Rightarrow> error + nat \<times> nat \<times> string" where
  "queryYaml jmxJSON =
     (case jmxData jmxJSON of
        None \<Rightarrow> Inl TypeError
      | Some domains \<Rightarrow> domainLoop domains (0, 0, initialYaml))"

definition createQueryInsertions ::
  "(string \<Rightarrow> nat \<Rightarrow> string) \<Rightarrow> jmxDataResponse \<Rightarrow> TextDocument \<Rightarrow> Range
    \<Rightarrow> error + CodeAction list" where
  "createQueryInsertions indentJMXSnippet thisJmxData document range' =
     (case queryYaml thisJmxData of
        Inl e \<Rightarrow> Inl e
      | Inr (groupCount, subgroupCount, yamlString) \<Rightarrow>
          (case createInsertAction indentJMXSnippet
                  (''Insert JMX data for ''
                     @ (case process_name thisJmxData of None \<Rightarrow> [] | Some p \<Rightarrow> p))
                  yamlString document range' of
             Inl e \<Rightarrow> Inl e
           | Inr None \<Rightarrow> Inr []
           | Inr (Some action) \<Rightarrow> Inr [action]))"

section \<open>\<open>provideCodeActions\<close>, in its two revisions\<close>

text \<open>
  \<open>getParentBlocks\<close> is imported from \<open>../utils/yamlParsing\<close>; the model takes it as a
  parameter. The revision of \<open>src/codeActions/jmx.ts\<close> calls it and does not use what it
  returns; its cached data is an object, absent before the first scrape.
\<close>

definition provideCodeActions ::
  "(nat \<Rightarrow> string \<Rightarrow> string list) \<Rightarrow> (string \<Rightarrow> nat \<Rightarrow> string) \<Rightarrow> jmxDataResponse option
    \<Rightarrow> TextDocument \<Rightarrow> Range \<Rightarrow> error + CodeAction list" where
  "provideCodeActions getParentBlocks indentJMXSnippet thisJmxData document range' =
     (if \<not> testJmx (getText document) \<or> thisJmxData = None then Inr []
      else
        (case lineAt document (line (start range')) of
           Inl e \<Rightarrow> Inl e
         | Inr lineText \<Rightarrow>
             (let parentBlocks = getParentBlocks (line (start range')) (getText document)
              in if includesStr lineText ''jmx:''
                 then (case thisJmxData of
                         None \<Rightarrow> Inr []
                       | Some scraped \<Rightarrow>
                           createQueryInsertions indentJMXSnippet scraped document range')
                 else Inr [])))"

text \<open>
  The other revision (the unnamed source file with \<open>createMetricInsertions\<close>): its cached
  data is an array, and the action inserts \<open>String\<close> of its last entry; the model holds
  the entries as the strings \<open>String\<close> gives.
\<close>

definition createMetricInsertions ::
  "(string \<Rightarrow> nat \<Rightarrow> string) \<Rightarrow> string list \<Rightarrow> TextDocument \<Rightarrow> Range
    \<Rightarrow> error + CodeAction list" where
  "createMetricInsertions indentJMXSnippet thisJmxData document range' =
     (case createInsertAction indentJMXSnippet ''Insert JMX Response''
             (if thisJmxData = [] then ''undefined'' else last thisJmxData)
             document range' of
        Inl e \<Rightarrow> Inl e
      | Inr None \<Rightarrow> Inr []
      | Inr (Some action) \<Rightarrow> Inr [action])"

definition provideCodeActionsMetrics ::
  "(nat \<Rightarrow> string \<Rightarrow> string list) \<Rightarrow> (string \<Rightarrow> nat \<Rightarrow> string) \<Rightarrow> string list
    \<Rightarrow> TextDocument \<Rightarrow> Range \<Rightarrow> error + CodeAction list" where
  "provideCodeActionsMetrics getParentBlocks indentJMXSnippet thisJmxData document range' =
     (if \<not> testJmx (getText document) \<or> length thisJmxData = 0 then Inr []
      else
        (case lineAt document (line (start range')) of
           Inl e \<Rightarrow> Inl e
         | Inr lineText \<Rightarrow>
             (let parentBlocks = getParentBlocks (line (start range')) (getText document)
              in if (parentBlocks \<noteq> [] \<and> last parentBlocks = ''jmx'')
                    \<or> (parentBlocks \<noteq> [] \<and> last parentBlocks = ''subgroups'')
                 then (if includesStr lineText ''metrics:''
                       then createMetricInsertions indentJMXSnippet thisJmxData document range'
                       else Inr [])
                 else Inr [])))"

section \<open>Notions the properties are stated with\<close>

text \<open>
  The loop body throws on an element that lacks a field it uses: the path, the
  properties, the metrics, or the name of one of the metrics.
\<close>

definition elementThrows :: "mBeanElement \<Rightarrow> bool" where
  "elementThrows element =
     (fullPath element = None \<or> properties element = None \<or>
      (case metrics element of
         None \<Rightarrow> True
       | Some ms \<Rightarrow> list_ex (\<lambda>metric. name metric = None) ms))"

text \<open>All containers above the elements are there.\<close>

definition containersPresent :: "jmxDataResponse \<Rightarrow> bool" where
  "containersPresent jmxJSON =
     (case jmxData jmxJSON of
        None \<Rightarrow> False
      | Some domains \<Rightarrow>
          list_all (\<lambda>(domain, mbeans).
            (case mbeans of
               None \<Rightarrow> False
             | Some mbs \<Rightarrow> list_all (\<lambda>(mbean, elements). elements \<noteq> None) mbs)) domains)"

text \<open>
  The elements in the order in which the three nested loops visit them (an absent
  container has none).
\<close>

definition mbeanElements :: "mBean list \<Rightarrow> mBeanElement list" where
  "mbeanElements mbeans =
     concat (map (\<lambda>(mbean, elements). case elements of None \<Rightarrow> [] | Some es \<Rightarrow> es) mbeans)"

definition domainElements :: "jmxDomain list \<Rightarrow> mBeanElement list" where
  "domainElements domains =
     concat (map (\<lambda>(domain, mbeans). case mbeans of None \<Rightarrow> [] | Some mbs \<Rightarrow> mbeanElements mbs)
       domains)"

definition scrapedElements :: "jmxDataResponse \<Rightarrow> mBeanElement list" where
  "scrapedElements jmxJSON =
     (case jmxData jmxJSON of None \<Rightarrow> [] | Some domains \<Rightarrow> domainElements domains)"

text \<open>
  The text of one subgroup entry, written out as one expression: the subgroup line, the
  query line, the dimensions line, two lines for every property and every metric that is
  not numeric, the metrics line, and three lines for every numeric metric or, when there
  is none, the three lines of the constant metric.
\<close>

definition entryText ::
  "string \<Rightarrow> string \<Rightarrow> (string \<times> string) list \<Rightarrow> mBeanMetric list \<Rightarrow> string" where
  "entryText dimensionsLine p props ms =
     ''       - subgroup: '' @ p @ newline
     @ ''         query: '' @ formatQuery p @ newline
     @ ''         '' @ dimensionsLine @ newline
     @ concat (map (\<lambda>(key, v).
           ''          - key: '' @ toLowerCase key @ newline
           @ ''            value: property:'' @ key @ newline) props)
     @ concat (map (\<lambda>n.
           ''          - key: '' @ toLowerCase n @ newline
           @ ''            value: attribute:'' @ n @ newline)
         (List.map_filter (\<lambda>metric. if numeric metric then None else name metric) ms))
     @ ''         metrics: '' @ newline
     @ (if list_ex numeric ms then
          concat (map (\<lambda>n.
              ''          - key: '' @ trueMetricKey p n @ newline
              @ ''            type: gauge '' @ newline
              @ ''            value: attribute:'' @ n @ newline)
            (List.map_filter (\<lambda>metric. if numeric metric then name metric else None) ms))
        else
          ''          - key: jmx.const.value '' @ newline
          @ ''            type: gauge '' @ newline
          @ ''            value: const:1 '' @ newline)"

text \<open>
  \<open>t\<close> is the subgroup entry of \<open>element\<close>, with either spelling of the dimensions line.
\<close>

definition subgroupOf :: "mBeanElement \<Rightarrow> string \<Rightarrow> bool" where
  "subgroupOf element t =
     (case fullPath element of
        None \<Rightarrow> False
      | Some p \<Rightarrow>
          (case properties element of
             None \<Rightarrow> False
           | Some props \<Rightarrow>
               (case metrics element of
                  None \<Rightarrow> False
                | Some ms \<Rightarrow>
                    t = entryText ''dimensions: '' p props ms \<or>
                    t = entryText ''dimensions : '' p props ms)))"

text \<open>\<open>h\<close> is nothing, or the two lines that open a group.\<close>

definition groupHeadOrNothing :: "string \<Rightarrow> bool" where
  "groupHeadOrNothing h = (h = [] \<or> (\<exists>groupCount. h = groupHead groupCount))"


definition unlines :: "string list \<Rightarrow> string" where
  "unlines ls = concat (map (\<lambda>l. l @ newline) ls)"











section \<open>Query formatting\<close>

lemma endsWith_single: "endsWith s [c] = (s \<noteq> [] \<and> last s = c)"
  by (cases s rule: rev_cases) (auto simp: endsWith_def)

lemma replaceEqComma_Nil: "(replaceEqComma s = []) = (s = [])"
  by (induction s rule: replaceEqComma.induct) auto

lemma last_replaceEqComma: "last (replaceEqComma s) = last s"
  by (induction s rule: replaceEqComma.induct) (auto simp: replaceEqComma_Nil)

lemma replaceEqComma_append:
  "replaceEqComma (xs @ ''=,'' @ ys) = replaceEqComma xs @ ''=*,'' @ replaceEqComma ys"
  by (induction xs rule: replaceEqComma.induct) auto

lemma replaceEqComma_id: "\<not> includesStr s ''=,'' \<Longrightarrow> replaceEqComma s = s"
  by (induction s rule: replaceEqComma.induct) auto

lemma replaceEqComma_hd: "\<exists>r. replaceEqComma (b # cs) = b # r"
  by (cases cs) auto

lemma replaceEqComma_clean: "\<not> includesStr (replaceEqComma s) ''=,''"
proof (induction s rule: replaceEqComma.induct)
  case (1 a b cs)
  obtain r where r: "replaceEqComma (b # cs) = b # r"
    using replaceEqComma_hd by blast
  show ?case using 1 r by auto
qed auto

lemma formatQuery_char:
  "formatQuery s = replaceEqComma s @ (if endsWith s ''='' then ''*'' else [])"
  by (simp add: formatQuery_def endsWith_single replaceEqComma_Nil last_replaceEqComma)

text \<open>
  Claim C4. \<open>formatQuery\<close> maps \<open>Domain:type=Foo,name=\<close> to \<open>Domain:type=Foo,name=*\<close> and
  \<open>Domain:type=Foo,name=,sub=X\<close> to \<open>Domain:type=Foo,name=*,sub=X\<close>. For every path, the
  result is the path with its occurrences of \<open>=,\<close> rewritten, followed by \<open>*\<close> exactly when
  the path ends with \<open>=\<close>. The rewriting turns every occurrence of \<open>=,\<close> into \<open>=*,\<close>: it
  distributes over an occurrence, it leaves a string without occurrence as it is, and
  no occurrence of \<open>=,\<close> is left in what it returns.
\<close>

theorem formatQuery_rewrites:
  "formatQuery ''Domain:type=Foo,name='' = ''Domain:type=Foo,name=*'' \<and>
   formatQuery ''Domain:type=Foo,name=,sub=X'' = ''Domain:type=Foo,name=*,sub=X'' \<and>
   (\<forall>fullPath. formatQuery fullPath =
      replaceEqComma fullPath @ (if endsWith fullPath ''='' then ''*'' else [])) \<and>
   (\<forall>xs ys. replaceEqComma (xs @ ''=,'' @ ys) =
      replaceEqComma xs @ ''=*,'' @ replaceEqComma ys) \<and>
   (\<forall>s. \<not> includesStr s ''=,'' \<longrightarrow> replaceEqComma s = s) \<and>
   (\<forall>s. \<not> includesStr (replaceEqComma s) ''=,'')"
proof -
  have a: "formatQuery ''Domain:type=Foo,name='' = ''Domain:type=Foo,name=*''"
    by (simp add: formatQuery_def endsWith_def)
  have b: "formatQuery ''Domain:type=Foo,name=,sub=X'' = ''Domain:type=Foo,name=*,sub=X''"
    by (simp add: formatQuery_def endsWith_def)
  show ?thesis
    using a b formatQuery_char replaceEqComma_append replaceEqComma_id replaceEqComma_clean
    by blast
qed

theorem formatQuery_rewrites_witness:
  "\<not> includesStr ''a=b'' ''=,'' \<and> replaceEqComma ''a=b'' = ''a=b'' \<and>
   formatQuery ''x=,y='' = ''x=*,y=*''"
proof -
  have h: "\<not> includesStr ''a=b'' ''=,''" by simp
  have "replaceEqComma ''a=b'' = ''a=b''" using formatQuery_rewrites h by blast
  moreover have "formatQuery ''x=,y='' = replaceEqComma ''x=,y='' @ ''*''"
    using formatQuery_rewrites by (simp add: endsWith_def)
  ultimately show ?thesis using h by simp
qed

section \<open>Metric keys\<close>

lemma of_char_lower: "isUpper c \<Longrightarrow> (of_char (toLowerCaseChar c) :: nat) = of_char c + 32"
  by (simp add: isUpper_def toLowerCaseChar_def)

lemma toLowerCaseChar_fix: "(toLowerCaseChar c = c) = (\<not> isUpper c)"
proof (cases "isUpper c")
  case True
  then have "(of_char (toLowerCaseChar c) :: nat) \<noteq> of_char c" by (simp add: of_char_lower)
  then have "toLowerCaseChar c \<noteq> c" by auto
  with True show ?thesis by simp
next
  case False
  then show ?thesis by (simp add: toLowerCaseChar_def)
qed

lemma not_upper_lower: "\<not> isUpper (toLowerCaseChar c)"
proof (cases "isUpper c")
  case True
  then show ?thesis using of_char_lower[OF True] by (simp add: isUpper_def)
next
  case False
  then show ?thesis by (simp add: toLowerCaseChar_def)
qed

lemma toLowerCase_fix: "(toLowerCase s = s) = (\<forall>c \<in> set s. \<not> isUpper c)"
  by (induction s) (auto simp: toLowerCase_def toLowerCaseChar_fix)

lemma toLowerCase_idem: "toLowerCase (toLowerCase s) = toLowerCase s"
  by (simp add: toLowerCase_fix) (auto simp: toLowerCase_def not_upper_lower)

lemma length_toLowerCase: "length (toLowerCase s) = length s"
  by (simp add: toLowerCase_def)

lemma toLowerCase_append: "toLowerCase (a @ b) = toLowerCase a @ toLowerCase b"
  by (simp add: toLowerCase_def)

lemma keyChar_lower: "keyChar c \<Longrightarrow> keyChar (toLowerCaseChar c)"
proof (cases "isUpper c")
  case True
  then have "isLower (toLowerCaseChar c)"
    using of_char_lower[OF True] by (simp add: isUpper_def isLower_def)
  then show ?thesis by (simp add: keyChar_def)
next
  case False
  assume "keyChar c"
  with False show ?thesis by (simp add: toLowerCaseChar_def)
qed

lemma keyChar_toLowerCase: "list_all keyChar s \<Longrightarrow> list_all keyChar (toLowerCase s)"
  by (induction s) (auto simp: toLowerCase_def keyChar_lower)

lemma keyChar_ConvertMetricKey: "list_all keyChar (ConvertMetricKey p)"
  by (simp add: ConvertMetricKey_def Let_def list_all_iff keyChar_def)

lemma set_map_if: "set (map (\<lambda>c. if P c then r else c) s) \<subseteq> insert r (set s)"
  by (induction s) auto

lemma set_ConvertMetricKey:
  "set (ConvertMetricKey p) \<subseteq> insert CHR ''.'' (insert CHR ''_'' (set p))"
proof -
  let ?f = "\<lambda>c. if c = CHR '':'' \<or> c = CHR ''|'' \<or> c = CHR '','' then CHR ''.'' else c"
  let ?g = "\<lambda>c. if c = CHR ''='' \<or> c = CHR ''|'' \<or> c = CHR '' '' then CHR ''_'' else c"
  have 1: "set (map ?f p) \<subseteq> insert CHR ''.'' (set p)"
    by (rule set_map_if)
  have 2: "set (map ?g (map ?f p)) \<subseteq> insert CHR ''_'' (set (map ?f p))"
    by (rule set_map_if)
  have 3: "set (filter keyChar (map ?g (map ?f p))) \<subseteq> set (map ?g (map ?f p))"
    by (rule filter_is_subset)
  have "ConvertMetricKey p = filter keyChar (map ?g (map ?f p)) @ ''.''"
    by (simp only: ConvertMetricKey_def Let_def)
  then have "set (ConvertMetricKey p) = insert CHR ''.'' (set (filter keyChar (map ?g (map ?f p))))"
    by simp
  with 1 2 3 show ?thesis by blast
qed

lemma ConvertMetricKey_no_upper:
  assumes "\<forall>c \<in> set p. \<not> isUpper c"
  shows "\<forall>c \<in> set (ConvertMetricKey p). \<not> isUpper c"
proof -
  have d: "\<not> isUpper CHR ''.''" and u: "\<not> isUpper CHR ''_''"
    by (simp_all add: isUpper_def)
  show ?thesis using set_ConvertMetricKey[of p] assms d u by blast
qed

lemma prefix_slice0: "prefix (slice0 s e) s"
  by (simp add: slice0_def Let_def take_is_prefix)

lemma length_slice0: "0 \<le> e \<Longrightarrow> length (slice0 s e) \<le> nat e"
  by (simp add: slice0_def Let_def)

lemma trueMetricKey_shape:
  "\<exists>p. prefix p (ConvertMetricKey fp) \<and> trueMetricKey fp nm = p @ ''.'' @ toLowerCase nm"
proof (cases "length (ConvertMetricKey fp @ toLowerCase nm) > 250")
  case True
  then have "trueMetricKey fp nm = slice0 (ConvertMetricKey fp) (249 - int (length (toLowerCase nm))) @ ''.'' @ toLowerCase nm"
    by (simp add: trueMetricKey_def Let_def)
  then show ?thesis using prefix_slice0 by blast
next
  case False
  then have "trueMetricKey fp nm = ConvertMetricKey fp @ toLowerCase nm"
    by (simp add: trueMetricKey_def Let_def)
  moreover have "ConvertMetricKey fp = butlast (ConvertMetricKey fp) @ ''.''"
    by (simp add: ConvertMetricKey_def Let_def)
  moreover have "prefix (butlast (ConvertMetricKey fp)) (ConvertMetricKey fp)"
    by (simp add: prefixeq_butlast)
  ultimately show ?thesis by (metis append.assoc)
qed

lemma length_trueMetricKey:
  assumes "length nm \<le> 249"
  shows "length (trueMetricKey fp nm) \<le> 250"
proof (cases "length (ConvertMetricKey fp @ toLowerCase nm) > 250")
  case True
  have "0 \<le> 249 - int (length (toLowerCase nm))" using assms by (simp add: length_toLowerCase)
  from length_slice0[OF this, of "ConvertMetricKey fp"]
  have "length (slice0 (ConvertMetricKey fp) (249 - int (length (toLowerCase nm)))) \<le> 249 - length nm"
    using assms by (simp add: length_toLowerCase)
  with True assms show ?thesis
    by (simp add: trueMetricKey_def Let_def length_toLowerCase)
next
  case False
  then show ?thesis by (simp add: trueMetricKey_def Let_def)
qed

lemma no_upper_trueMetricKey:
  assumes "toLowerCase fp = fp"
  shows "toLowerCase (trueMetricKey fp nm) = trueMetricKey fp nm"
proof -
  obtain p where p: "prefix p (ConvertMetricKey fp)"
    and k: "trueMetricKey fp nm = p @ ''.'' @ toLowerCase nm"
    using trueMetricKey_shape by blast
  have "\<forall>c \<in> set fp. \<not> isUpper c" using assms by (simp add: toLowerCase_fix)
  then have "\<forall>c \<in> set (ConvertMetricKey fp). \<not> isUpper c"
    by (rule ConvertMetricKey_no_upper)
  moreover have "set p \<subseteq> set (ConvertMetricKey fp)" using p by (rule set_mono_prefix)
  ultimately have "toLowerCase p = p" by (auto simp: toLowerCase_fix)
  moreover have "toLowerCase (''.'' @ toLowerCase nm) = ''.'' @ toLowerCase nm"
    using toLowerCase_idem[of nm]
    by (simp add: toLowerCase_def toLowerCaseChar_def isUpper_def)
  ultimately show ?thesis unfolding k by (simp only: toLowerCase_append)
qed

lemma keyChar_trueMetricKey:
  assumes "list_all keyChar nm"
  shows "list_all keyChar (trueMetricKey fp nm)"
proof -
  obtain p where p: "prefix p (ConvertMetricKey fp)"
    and k: "trueMetricKey fp nm = p @ ''.'' @ toLowerCase nm"
    using trueMetricKey_shape by blast
  have "set p \<subseteq> set (ConvertMetricKey fp)" using p by (rule set_mono_prefix)
  then have "list_all keyChar p"
    using keyChar_ConvertMetricKey[of fp] by (auto simp: list_all_iff)
  moreover have "list_all keyChar ''.''" by (simp add: keyChar_def)
  ultimately show ?thesis using keyChar_toLowerCase[OF assms] by (simp add: k)
qed

lemma ConvertMetricKey_char:
  "filter keyChar
     [(\<lambda>c. if c = CHR ''='' \<or> c = CHR ''|'' \<or> c = CHR '' '' then CHR ''_'' else c)
        ((\<lambda>c. if c = CHR '':'' \<or> c = CHR ''|'' \<or> c = CHR '','' then CHR ''.'' else c) c)] =
   (if c = CHR '':'' \<or> c = CHR '','' \<or> c = CHR ''|'' then ''.''
    else if c = CHR ''='' \<or> c = CHR '' '' then ''_''
    else if keyChar c then [c] else [])"
proof -
  have d: "keyChar CHR ''.''" and u: "keyChar CHR ''_''"
    by (simp_all add: keyChar_def)
  show ?thesis using d u by simp
qed

lemma ConvertMetricKey_chars:
  "ConvertMetricKey path =
     concat (map (\<lambda>c. if c = CHR '':'' \<or> c = CHR '','' \<or> c = CHR ''|'' then ''.''
                       else if c = CHR ''='' \<or> c = CHR '' '' then ''_''
                       else if keyChar c then [c] else []) path) @ ''.''"
proof -
  let ?f = "\<lambda>c. if c = CHR '':'' \<or> c = CHR ''|'' \<or> c = CHR '','' then CHR ''.'' else c"
  let ?g = "\<lambda>c. if c = CHR ''='' \<or> c = CHR ''|'' \<or> c = CHR '' '' then CHR ''_'' else c"
  let ?h = "\<lambda>c. if c = CHR '':'' \<or> c = CHR '','' \<or> c = CHR ''|'' then ''.''
                       else if c = CHR ''='' \<or> c = CHR '' '' then ''_''
                       else if keyChar c then [c] else []"
  have "filter keyChar (map ?g (map ?f s)) = concat (map ?h s)" for s
  proof (induction s)
    case Nil
    show ?case by simp
  next
    case (Cons c s)
    have "filter keyChar (map ?g (map ?f (c # s))) =
        filter keyChar [?g (?f c)] @ filter keyChar (map ?g (map ?f s))"
      by simp
    also have "\<dots> = ?h c @ concat (map ?h s)"
      by (simp only: ConvertMetricKey_char Cons.IH)
    finally show ?case by simp
  qed
  then show ?thesis by (simp only: ConvertMetricKey_def Let_def)
qed

lemma trueMetricKey_short:
  "length (ConvertMetricKey path @ toLowerCase nm) \<le> 250 \<Longrightarrow>
   trueMetricKey path nm = ConvertMetricKey path @ toLowerCase nm"
  by (simp add: trueMetricKey_def Let_def)

text \<open>
  Claim C1, as stated, fails: the key of path \<open>A\<close> and attribute \<open>b\<close> is \<open>A.b\<close>, which is not
  lower-case (the path's letters keep their case); the key of path \<open>a\<close> and attribute
  \<open>b-c\<close> holds a \<open>-\<close> (the attribute name is lower-cased, not filtered); and with an
  attribute name of 250 characters the key is longer than 250 characters (the suffix is
  never cut).
\<close>

theorem sanitized_key_counterexample:
  "toLowerCase (trueMetricKey ''A'' ''b'') \<noteq> trueMetricKey ''A'' ''b'' \<and>
   \<not> list_all keyChar (trueMetricKey ''a'' ''b-c'') \<and>
   250 < length (trueMetricKey ''a'' (replicate 250 CHR ''x''))"
proof -
  have a: "toLowerCase (trueMetricKey ''A'' ''b'') \<noteq> trueMetricKey ''A'' ''b''"
    by code_simp
  have b: "\<not> list_all keyChar (trueMetricKey ''a'' ''b-c'')"
    by code_simp
  have c: "250 < length (trueMetricKey ''a'' (replicate 250 CHR ''x''))"
    by code_simp
  from a b c show ?thesis by blast
qed

text \<open>
  Claim C1, amended. \<open>ConvertMetricKey\<close> treats every character of the path on its own: a
  colon, a comma and a bar become a dot, an equals sign and a space become an underscore,
  a character of \<open>[a-zA-Z0-9_.]\<close> stays as it is (a letter keeps its case), every other
  character is dropped; a dot is appended. So what it returns holds only characters of
  \<open>[a-zA-Z0-9_.]\<close>. The emitted key is that prefix followed by the lower-cased attribute
  name when the two have at most 250 characters together, and in every case a leading
  part of the prefix, a dot and the lower-cased attribute name. It holds only characters
  of \<open>[a-zA-Z0-9_.]\<close> when the attribute name does; it is lower-case when the path has no
  upper-case letter; and it has at most 250 characters when the lower-cased attribute name
  has at most 249.
\<close>

theorem sanitized_key:
  "ConvertMetricKey path =
     concat (map (\<lambda>c. if c = CHR '':'' \<or> c = CHR '','' \<or> c = CHR ''|'' then ''.''
                       else if c = CHR ''='' \<or> c = CHR '' '' then ''_''
                       else if keyChar c then [c] else []) path) @ ''.'' \<and>
   list_all keyChar (ConvertMetricKey path) \<and>
   (length (ConvertMetricKey path @ toLowerCase metricName) \<le> 250 \<longrightarrow>
      trueMetricKey path metricName = ConvertMetricKey path @ toLowerCase metricName) \<and>
   (\<exists>p. prefix p (ConvertMetricKey path) \<and>
        trueMetricKey path metricName = p @ ''.'' @ toLowerCase metricName) \<and>
   (list_all keyChar metricName \<longrightarrow> list_all keyChar (trueMetricKey path metricName)) \<and>
   (toLowerCase path = path \<longrightarrow>
      toLowerCase (trueMetricKey path metricName) = trueMetricKey path metricName) \<and>
   (length (toLowerCase metricName) \<le> 249 \<longrightarrow> length (trueMetricKey path metricName) \<le> 250)"
proof -
  have 7: "length (toLowerCase metricName) \<le> 249 \<longrightarrow>
      length (trueMetricKey path metricName) \<le> 250"
    using length_trueMetricKey[of metricName path] by (simp add: length_toLowerCase)
  from ConvertMetricKey_chars[of path] keyChar_ConvertMetricKey[of path]
    trueMetricKey_short[of path metricName] trueMetricKey_shape[of path metricName]
    keyChar_trueMetricKey[of metricName path] no_upper_trueMetricKey[of path metricName] 7
  show ?thesis by blast
qed

theorem sanitized_key_witness:
  "ConvertMetricKey ''Dom:type=a b'' = ''Dom.type_a_b.'' \<and>
   list_all keyChar ''Count'' \<and> toLowerCase ''dom:type=a b'' = ''dom:type=a b'' \<and>
   length (toLowerCase ''Count'') \<le> 249 \<and>
   length (ConvertMetricKey ''dom:type=a b'' @ toLowerCase ''Count'') \<le> 250 \<and>
   trueMetricKey ''dom:type=a b'' ''Count'' = ConvertMetricKey ''dom:type=a b'' @ toLowerCase ''Count'' \<and>
   list_all keyChar (trueMetricKey ''dom:type=a b'' ''Count'') \<and>
   toLowerCase (trueMetricKey ''dom:type=a b'' ''Count'') = trueMetricKey ''dom:type=a b'' ''Count'' \<and>
   length (trueMetricKey ''dom:type=a b'' ''Count'') \<le> 250"
proof -
  have c: "concat (map (\<lambda>c. if c = CHR '':'' \<or> c = CHR '','' \<or> c = CHR ''|'' then ''.''
                       else if c = CHR ''='' \<or> c = CHR '' '' then ''_''
                       else if keyChar c then [c] else []) ''Dom:type=a b'') @ ''.'' =
      ''Dom.type_a_b.''"
    by code_simp
  have h0: "ConvertMetricKey ''Dom:type=a b'' = ''Dom.type_a_b.''"
    using sanitized_key[of "''Dom:type=a b''" "[]"] c by simp
  have h1: "list_all keyChar ''Count''"
    by code_simp
  have h2: "toLowerCase ''dom:type=a b'' = ''dom:type=a b''"
    by code_simp
  have h3: "length (toLowerCase ''Count'') \<le> 249"
    by (simp add: toLowerCase_def)
  have h4: "length (ConvertMetricKey ''dom:type=a b'' @ toLowerCase ''Count'') \<le> 250"
    by code_simp
  show ?thesis
    using sanitized_key[of "''dom:type=a b''" "''Count''"] h0 h1 h2 h3 h4 by blast
qed

text \<open>
  Claim C2. When the prefix of \<open>ConvertMetricKey\<close> followed by the lower-cased attribute
  name is longer than 250 characters, the emitted key is a strictly shorter prefix of what
  \<open>ConvertMetricKey\<close> returned, then a dot, then the whole lower-cased attribute name: the
  key ends with the dot and the full name.
\<close>

theorem truncation_keeps_suffix:
  assumes "250 < length (ConvertMetricKey path @ toLowerCase metricName)"
  shows "trueMetricKey path metricName =
           slice0 (ConvertMetricKey path) (249 - int (length (toLowerCase metricName)))
             @ ''.'' @ toLowerCase metricName \<and>
         prefix (slice0 (ConvertMetricKey path) (249 - int (length (toLowerCase metricName))))
           (ConvertMetricKey path) \<and>
         length (slice0 (ConvertMetricKey path) (249 - int (length (toLowerCase metricName))))
           < length (ConvertMetricKey path) \<and>
         suffix (''.'' @ toLowerCase metricName) (trueMetricKey path metricName)"
proof -
  let ?e = "249 - int (length (toLowerCase metricName))"
  have k: "trueMetricKey path metricName =
      slice0 (ConvertMetricKey path) ?e @ ''.'' @ toLowerCase metricName"
    using assms by (simp add: trueMetricKey_def Let_def)
  have l: "length (slice0 (ConvertMetricKey path) ?e) < length (ConvertMetricKey path)"
  proof -
    define m where "m = length (ConvertMetricKey path)"
    define n where "n = length (toLowerCase metricName)"
    have pos: "0 < m" by (simp add: m_def ConvertMetricKey_def Let_def)
    have big: "250 < m + n" using assms by (simp add: m_def n_def)
    have "length (slice0 (ConvertMetricKey path) (249 - int n)) =
        nat (if 249 - int n < 0 then max (int m + (249 - int n)) 0 else min (249 - int n) (int m))"
      by (simp add: slice0_def Let_def m_def)
    also have "\<dots> < m" using pos big by (auto simp: min_def max_def)
    finally show ?thesis by (simp add: m_def n_def)
  qed
  have s: "suffix (''.'' @ toLowerCase metricName) (trueMetricKey path metricName)"
    unfolding k by (rule suffix_appendI) simp
  from k l s prefix_slice0 show ?thesis by blast
qed

theorem truncation_keeps_suffix_witness:
  "250 < length (ConvertMetricKey (replicate 260 CHR ''a'') @ toLowerCase ''Ab'') \<and>
   suffix ''.ab'' (trueMetricKey (replicate 260 CHR ''a'') ''Ab'')"
proof -
  have h: "250 < length (ConvertMetricKey (replicate 260 CHR ''a'') @ toLowerCase ''Ab'')"
    by code_simp
  have l: "toLowerCase ''Ab'' = ''ab''"
    by code_simp
  have "suffix (''.'' @ toLowerCase ''Ab'') (trueMetricKey (replicate 260 CHR ''a'') ''Ab'')"
    using truncation_keeps_suffix[OF h] by blast
  then have "suffix ''.ab'' (trueMetricKey (replicate 260 CHR ''a'') ''Ab'')"
    by (simp only: l append_Cons append_Nil)
  with h show ?thesis by blast
qed

section \<open>The insertion action\<close>

lemma execLetter_None: "(execLetter s = None) = (\<not> list_ex isLetter s)"
  by (induction s) auto

lemma execLetter_Some: "execLetter s = Some i \<Longrightarrow> i < length s \<and> isLetter (s ! i) \<and> \<not> list_ex isLetter (take i s)"
  by (induction s arbitrary: i) (auto split: if_splits)

lemma createInsertAction_None:
  "lineAt document (line (start r)) = Inr lineText \<Longrightarrow> \<not> list_ex isLetter lineText \<Longrightarrow>
   createInsertAction ind nm t document r = Inr None"
proof -
  assume l: "lineAt document (line (start r)) = Inr lineText"
    and n: "\<not> list_ex isLetter lineText"
  from n have "execLetter lineText = None" by (simp add: execLetter_None)
  with l show ?thesis by (simp add: createInsertAction_def Let_def)
qed

lemma createInsertAction_Some:
  assumes "createInsertAction ind nm t document r = Inr (Some action)"
  shows "\<exists>lineText indent. lineAt document (line (start r)) = Inr lineText \<and>
      execLetter lineText = Some indent \<and>
      action = \<lparr>title = nm, kind = QuickFix,
        edit = \<lparr>editUri = uri document,
          insertPosition = \<lparr>line = line (start r) + 1, character = 0\<rparr>,
          newText = ind (if lineCount document = line (start r) + 1 then newline @ t else t) indent\<rparr>\<rparr>"
  using assms
  by (auto simp: createInsertAction_def Let_def split: sum.splits option.splits if_splits)

lemma createQueryInsertions_None:
  assumes "lineAt document (line (start r)) = Inr lineText" "\<not> list_ex isLetter lineText"
    "createQueryInsertions ind scraped document r = Inr acts"
  shows "acts = []"
  using assms createInsertAction_None[OF assms(1,2)]
  by (auto simp: createQueryInsertions_def split: sum.splits option.splits prod.splits)

lemma createMetricInsertions_None:
  assumes "lineAt document (line (start r)) = Inr lineText" "\<not> list_ex isLetter lineText"
    "createMetricInsertions ind d document r = Inr acts"
  shows "acts = []"
  using assms createInsertAction_None[OF assms(1,2)]
  by (auto simp: createMetricInsertions_def split: sum.splits option.splits prod.splits)

lemma provideCodeActions_None:
  assumes "lineAt document (line (start r)) = Inr lineText" "\<not> list_ex isLetter lineText"
    "provideCodeActions gpb ind d document r = Inr acts"
  shows "acts = []"
  using assms createQueryInsertions_None[OF assms(1,2)]
  by (auto simp: provideCodeActions_def Let_def split: sum.splits option.splits if_splits)

lemma provideCodeActionsMetrics_None:
  assumes "lineAt document (line (start r)) = Inr lineText" "\<not> list_ex isLetter lineText"
    "provideCodeActionsMetrics gpb ind d document r = Inr acts"
  shows "acts = []"
  using assms createMetricInsertions_None[OF assms(1,2)]
  by (auto simp: provideCodeActionsMetrics_def Let_def split: sum.splits option.splits if_splits)

text \<open>
  Claim C7. When the anchor line holds no letter, \<open>createInsertAction\<close> returns no action,
  and neither revision of \<open>provideCodeActions\<close> offers one. When \<open>createInsertAction\<close>
  returns an action, its edit inserts at the line after the anchor line, column 0.
\<close>

theorem no_action_without_letter:
  "(lineAt document (line (start r)) = Inr lineText \<and> \<not> list_ex isLetter lineText \<longrightarrow>
      createInsertAction ind nm t document r = Inr None \<and>
      (\<forall>acts. provideCodeActions gpb ind scraped document r = Inr acts \<longrightarrow> acts = []) \<and>
      (\<forall>acts. provideCodeActionsMetrics gpb ind responses document r = Inr acts \<longrightarrow> acts = [])) \<and>
   (createInsertAction ind nm t document r = Inr (Some action) \<longrightarrow>
      insertPosition (edit action) = \<lparr>line = line (start r) + 1, character = 0\<rparr>)"
proof -
  have "insertPosition (edit action) = \<lparr>line = line (start r) + 1, character = 0\<rparr>"
    if "createInsertAction ind nm t document r = Inr (Some action)"
    using createInsertAction_Some[OF that] by auto
  then show ?thesis
    using createInsertAction_None provideCodeActions_None provideCodeActionsMetrics_None
    by blast
qed

theorem no_action_without_letter_witness:
  "lineAt \<lparr>uri = ''u'', lines = [''jmx:'', ''  - 12:'']\<rparr> 1 = Inr ''  - 12:'' \<and>
   \<not> list_ex isLetter ''  - 12:'' \<and>
   createInsertAction (\<lambda>t n. t) ''a'' ''x'' \<lparr>uri = ''u'', lines = [''jmx:'', ''  - 12:'']\<rparr>
     \<lparr>start = \<lparr>line = 1, character = 0\<rparr>, endPos = \<lparr>line = 1, character = 0\<rparr>\<rparr> = Inr None \<and>
   createInsertAction (\<lambda>t n. t) ''a'' ''x'' \<lparr>uri = ''u'', lines = [''jmx:'', ''  - 12:'']\<rparr>
     \<lparr>start = \<lparr>line = 0, character = 0\<rparr>, endPos = \<lparr>line = 0, character = 0\<rparr>\<rparr> =
     Inr (Some \<lparr>title = ''a'', kind = QuickFix, edit = \<lparr>editUri = ''u'',
       insertPosition = \<lparr>line = 1, character = 0\<rparr>, newText = ''x''\<rparr>\<rparr>) \<and>
   insertPosition (edit \<lparr>title = ''a'', kind = QuickFix, edit = \<lparr>editUri = ''u'',
       insertPosition = \<lparr>line = 1, character = 0\<rparr>, newText = ''x''\<rparr>\<rparr>) =
     \<lparr>line = 1, character = 0\<rparr>"
proof -
  let ?d = "\<lparr>uri = ''u'', lines = [''jmx:'', ''  - 12:'']\<rparr>"
  let ?r1 = "\<lparr>start = \<lparr>line = 1, character = 0\<rparr>, endPos = \<lparr>line = 1, character = 0\<rparr>\<rparr>"
  let ?r0 = "\<lparr>start = \<lparr>line = 0, character = 0\<rparr>, endPos = \<lparr>line = 0, character = 0\<rparr>\<rparr>"
  have h1: "lineAt ?d (line (start ?r1)) = Inr ''  - 12:''"
    by (simp add: lineAt_def lineCount_def)
  have h2: "\<not> list_ex isLetter ''  - 12:''"
    by (simp add: isLetter_def isLower_def isUpper_def)
  have c1: "createInsertAction (\<lambda>t n. t) ''a'' ''x'' ?d ?r1 = Inr None"
    using no_action_without_letter[of ?d ?r1 "''  - 12:''" "\<lambda>t n. t" "''a''" "''x''"] h1 h2
    by blast
  have h3: "createInsertAction (\<lambda>t n. t) ''a'' ''x'' ?d ?r0 =
     Inr (Some \<lparr>title = ''a'', kind = QuickFix, edit = \<lparr>editUri = ''u'',
       insertPosition = \<lparr>line = 1, character = 0\<rparr>, newText = ''x''\<rparr>\<rparr>)"
    by (simp add: createInsertAction_def lineAt_def lineCount_def isLetter_def isLower_def
        isUpper_def)
  have c2: "insertPosition (edit \<lparr>title = ''a'', kind = QuickFix, edit = \<lparr>editUri = ''u'',
       insertPosition = \<lparr>line = 1, character = 0\<rparr>, newText = ''x''\<rparr>\<rparr>) =
     \<lparr>line = 1, character = 0\<rparr>"
    using no_action_without_letter[of ?d ?r0 _ "\<lambda>t n. t" "''a''" "''x''"] h3 by simp
  from h1 h2 c1 h3 c2 show ?thesis by simp
qed

text \<open>
  Claim C10. The text handed to \<open>indentJMXSnippet\<close> is the snippet with a newline in front
  when the anchor line is the last line of the document (\<open>lineCount\<close> is the anchor line's
  index plus one), and the snippet itself otherwise; the indent is the index of the anchor
  line's first letter.
\<close>

theorem last_line_newline:
  assumes "createInsertAction ind nm t document r = Inr (Some action)"
  shows "\<exists>lineText indent. lineAt document (line (start r)) = Inr lineText \<and>
     execLetter lineText = Some indent \<and>
     newText (edit action) =
       ind (if lineCount document = line (start r) + 1 then newline @ t else t) indent"
  using createInsertAction_Some[OF assms] by auto

theorem last_line_newline_witness:
  "createInsertAction (\<lambda>t n. replicate n CHR ''.'' @ t) ''a'' ''x''
     \<lparr>uri = ''u'', lines = [''jmx:'', ''  metrics:'']\<rparr>
     \<lparr>start = \<lparr>line = 1, character = 0\<rparr>, endPos = \<lparr>line = 1, character = 0\<rparr>\<rparr> =
     Inr (Some \<lparr>title = ''a'', kind = QuickFix, edit = \<lparr>editUri = ''u'',
       insertPosition = \<lparr>line = 2, character = 0\<rparr>, newText = ''..'' @ newline @ ''x''\<rparr>\<rparr>) \<and>
   (\<exists>lineText indent.
      lineAt \<lparr>uri = ''u'', lines = [''jmx:'', ''  metrics:'']\<rparr> 1 = Inr lineText \<and>
      execLetter lineText = Some indent \<and>
      ''..'' @ newline @ ''x'' = replicate indent CHR ''.'' @ newline @ ''x'')"
proof -
  let ?d = "\<lparr>uri = ''u'', lines = [''jmx:'', ''  metrics:'']\<rparr>"
  let ?r1 = "\<lparr>start = \<lparr>line = 1, character = 0\<rparr>, endPos = \<lparr>line = 1, character = 0\<rparr>\<rparr>"
  have h: "createInsertAction (\<lambda>t n. replicate n CHR ''.'' @ t) ''a'' ''x'' ?d ?r1 =
     Inr (Some \<lparr>title = ''a'', kind = QuickFix, edit = \<lparr>editUri = ''u'',
       insertPosition = \<lparr>line = 2, character = 0\<rparr>, newText = ''..'' @ newline @ ''x''\<rparr>\<rparr>)"
    by (simp add: createInsertAction_def lineAt_def lineCount_def isLetter_def isLower_def
        isUpper_def numeral_2_eq_2)
  from last_line_newline[OF h] h show ?thesis by (simp add: lineCount_def)
qed

text \<open>
  Claim C9. The two revisions of \<open>provideCodeActions\<close> are not equivalent: on the document
  whose only line is \<open>jmx:\<close>, with the cursor on that line, the revision that looks for
  \<open>jmx:\<close> offers an insertion, and the revision that looks for \<open>metrics:\<close> under a \<open>jmx\<close> or
  \<open>subgroups\<close> block offers none, whatever it has cached.
\<close>

theorem revisions_differ:
  "\<exists>document r.
     (\<forall>gpb ind responses. provideCodeActionsMetrics gpb ind responses document r = Inr []) \<and>
     (\<forall>gpb ind. \<exists>action.
        provideCodeActions gpb ind (Some \<lparr>jmxData = Some [], process_name = None\<rparr>) document r =
          Inr [action])"
proof -
  let ?d = "\<lparr>uri = ''u'', lines = [''jmx:'']\<rparr>"
  let ?r0 = "\<lparr>start = \<lparr>line = 0, character = 0\<rparr>, endPos = \<lparr>line = 0, character = 0\<rparr>\<rparr>"
  have l: "lineAt ?d (line (start ?r0)) = Inr ''jmx:''"
    by (simp add: lineAt_def lineCount_def)
  have t: "testJmx (getText ?d)"
    by (simp add: testJmx_def getText_def)
  have m: "\<not> includesStr ''jmx:'' ''metrics:''" by simp
  have j: "includesStr ''jmx:'' ''jmx:''" by simp
  have a: "provideCodeActionsMetrics gpb ind responses ?d ?r0 = Inr []" for gpb ind responses
    using l m by (simp add: provideCodeActionsMetrics_def Let_def del: includesStr.simps)
  have e: "execLetter ''jmx:'' = Some 0"
    by (simp add: isLetter_def isLower_def)
  have q: "queryYaml \<lparr>jmxData = Some [], process_name = None\<rparr> = Inr (0, 0, initialYaml)"
    by (simp add: queryYaml_def)
  have b: "\<exists>action. provideCodeActions gpb ind (Some \<lparr>jmxData = Some [], process_name = None\<rparr>) ?d ?r0
      = Inr [action]" for gpb ind
    using l t j e q
    by (simp add: provideCodeActions_def createQueryInsertions_def createInsertAction_def
        Let_def del: includesStr.simps)
  from a b show ?thesis by blast
qed

theorem revisions_differ_witness:
  "\<exists>document r.
     provideCodeActionsMetrics (\<lambda>l t. [''jmx'']) (\<lambda>t n. t) [''response''] document r = Inr [] \<and>
     (\<exists>action. provideCodeActions (\<lambda>l t. [''jmx'']) (\<lambda>t n. t)
        (Some \<lparr>jmxData = Some [], process_name = None\<rparr>) document r = Inr [action])"
  using revisions_differ by blast

section \<open>Lines\<close>













lemma unlines_Nil: "unlines [] = []"
  by (simp add: unlines_def)

lemma startsWith_append: "startsWith (p @ r) p"
  by (induction p) auto


section \<open>The loops of \<open>createQueryInsertions\<close>\<close>

text \<open>
  Every loop appends to \<open>yamlString\<close>: what it returns is what it was given, followed by
  what it would have written to the empty string.
\<close>

lemma propertiesLoop_acc: "propertiesLoop props (y @ z) = y @ propertiesLoop props z"
proof (induction props arbitrary: z)
  case Nil
  show ?case by simp
next
  case (Cons p props)
  obtain k v where p: "p = (k, v)" by (cases p)
  show ?case unfolding p using Cons[of "z @ ''          - key: '' @ toLowerCase k @ newline
          @ ''            value: property:'' @ k @ newline"] by simp
qed

lemma dimensionLoop_acc:
  "dimensionLoop ms (y @ z) =
     (case dimensionLoop ms z of Inl e \<Rightarrow> Inl e | Inr t \<Rightarrow> Inr (y @ t))"
proof (induction ms arbitrary: z)
  case Nil
  show ?case by simp
next
  case (Cons m ms)
  show ?case
  proof (cases "name m")
    case None
    then show ?thesis using Cons[of z] by simp
  next
    case (Some n)
    then show ?thesis
      using Cons[of z] Cons[of "z @ ''          - key: '' @ toLowerCase n @ newline
                  @ ''            value: attribute:'' @ n @ newline"]
      by simp
  qed
qed

lemma metricLoop_acc:
  "metricLoop fp ms (h, y @ z) =
     (case metricLoop fp ms (h, z) of Inl e \<Rightarrow> Inl e | Inr (h', t) \<Rightarrow> Inr (h', y @ t))"
proof (induction ms arbitrary: h z)
  case Nil
  show ?case by simp
next
  case (Cons m ms)
  show ?case
  proof (cases "name m")
    case None
    then show ?thesis using Cons[of h z] by simp
  next
    case (Some n)
    then show ?thesis
      using Cons[of h z] Cons[of True "z @ ''          - key: '' @ trueMetricKey fp n @ newline
                  @ ''            type: gauge '' @ newline
                  @ ''            value: attribute:'' @ n @ newline"]
      by simp
  qed
qed

lemma dimensionLoop_error: "dimensionLoop ms y = Inl e \<Longrightarrow> e = TypeError"
  by (induction ms arbitrary: y) (auto split: if_splits option.splits)

lemma metricLoop_error: "metricLoop fp ms st = Inl e \<Longrightarrow> e = TypeError"
  by (induction fp ms st rule: metricLoop.induct) (auto split: if_splits option.splits)



lemma metricLoop_hasMetric:
  "metricLoop fp ms (h, y) = Inr (h', y') \<Longrightarrow> h' = (h \<or> list_ex numeric ms)"
  by (induction ms arbitrary: h y) (auto split: if_splits option.splits)

lemma metricLoop_no_numeric:
  "\<not> list_ex numeric ms \<Longrightarrow> metricLoop fp ms st = Inr st"
  by (induction fp ms st rule: metricLoop.induct) auto

lemma subgroupYaml_fields:
  assumes "fullPath e = Some p" "properties e = Some props" "metrics e = Some ms"
  shows "subgroupYaml L e y =
     (case dimensionLoop ms (propertiesLoop props (y @ subgroupHead L p)) of
        Inl x \<Rightarrow> Inl x
      | Inr d \<Rightarrow>
          (case metricLoop p ms (False, d @ ''         metrics: '' @ newline) of
             Inl x \<Rightarrow> Inl x
           | Inr (h, t) \<Rightarrow> Inr (if \<not> h then t @ constMetric else t)))"
  using assms by (simp add: subgroupYaml_def Let_def)

lemma subgroupYaml_acc:
  "subgroupYaml L e (y @ z) =
     (case subgroupYaml L e z of Inl x \<Rightarrow> Inl x | Inr t \<Rightarrow> Inr (y @ t))"
proof (cases "fullPath e")
  case None
  then show ?thesis by (simp add: subgroupYaml_def)
next
  case fp: (Some p)
  show ?thesis
  proof (cases "properties e")
    case None
    then show ?thesis using fp by (simp add: subgroupYaml_def)
  next
    case pr: (Some props)
    show ?thesis
    proof (cases "metrics e")
      case None
      then show ?thesis using fp pr by (simp add: subgroupYaml_def)
    next
      case ms: (Some ms)
      define M where "M = ''         metrics: '' @ newline"
      define A where "A = propertiesLoop props (z @ subgroupHead L p)"
      have 1: "propertiesLoop props ((y @ z) @ subgroupHead L p) = y @ A"
        using propertiesLoop_acc[of props y "z @ subgroupHead L p"] by (simp add: A_def)
      note f1 = subgroupYaml_fields[OF fp pr ms, of L "y @ z", unfolded 1, folded M_def]
      note f2 = subgroupYaml_fields[OF fp pr ms, of L z, folded A_def, folded M_def]
      show ?thesis
      proof (cases "dimensionLoop ms A")
        case (Inl x)
        then show ?thesis unfolding f1 f2 by (simp add: dimensionLoop_acc)
      next
        case (Inr d)
        have d: "dimensionLoop ms (y @ A) = Inr (y @ d)"
          using Inr by (simp add: dimensionLoop_acc)
        show ?thesis
        proof (cases "metricLoop p ms (False, d @ M)")
          case (Inl x)
          then show ?thesis unfolding f1 f2 d Inr
            using metricLoop_acc[of p ms False y "d @ M"] by simp
        next
          case r: (Inr r)
          obtain h t where r': "r = (h, t)" by (cases r)
          show ?thesis unfolding f1 f2 d Inr
            using metricLoop_acc[of p ms False y "d @ M"] r r' by simp
        qed
      qed
    qed
  qed
qed

lemma subgroupYaml_error: "subgroupYaml L e y = Inl x \<Longrightarrow> x = TypeError"
  by (auto simp: subgroupYaml_def Let_def split: option.splits sum.splits prod.splits
      dest: dimensionLoop_error metricLoop_error)


lemma elementThrows_fields:
  assumes "fullPath e = Some p" "properties e = Some props" "metrics e = Some ms"
  shows "(\<not> elementThrows e) = list_all (\<lambda>m. name m \<noteq> None) ms"
  using assms by (simp add: elementThrows_def list_all_iff list_ex_iff)


lemma subgroupYaml_Nil:
  "subgroupYaml L e y = (case subgroupYaml L e [] of Inl x \<Rightarrow> Inl x | Inr t \<Rightarrow> Inr (y @ t))"
  using subgroupYaml_acc[of L e y "[]"] by simp

lemma elementStep_lt:
  "s < 10 \<Longrightarrow> elementStep e (g, s, y) =
     (case subgroupYaml ''dimensions: '' e [] of
        Inl x \<Rightarrow> Inl x
      | Inr t \<Rightarrow> Inr (g, s + 1, y @ t))"
  by (simp add: elementStep_def subgroupYaml_Nil[of _ e y] split: sum.splits)

lemma elementStep_ge:
  "\<not> s < 10 \<Longrightarrow> elementStep e (g, s, y) =
     (case subgroupYaml ''dimensions : '' e [] of
        Inl x \<Rightarrow> Inl x
      | Inr t \<Rightarrow> Inr (g + 1, 1, y @ groupHead (g + 1) @ t))"
  by (simp add: elementStep_def Let_def subgroupYaml_Nil[of _ e "y @ groupHead (Suc g)"]
      split: sum.splits)

lemma elementStep_error: "elementStep e st = Inl x \<Longrightarrow> x = TypeError"
  by (auto simp: elementStep_def Let_def split: prod.splits if_splits sum.splits
      dest: subgroupYaml_error)


lemma elementLoop_append:
  "elementLoop (xs @ ys) st =
     (case elementLoop xs st of Inl x \<Rightarrow> Inl x | Inr st' \<Rightarrow> elementLoop ys st')"
  by (induction xs arbitrary: st) (auto split: sum.splits)

lemma elementLoop_error: "elementLoop es st = Inl x \<Longrightarrow> x = TypeError"
  by (induction es arbitrary: st) (auto split: sum.splits dest: elementStep_error)


lemma mbeanLoop_error: "mbeanLoop mbeans st = Inl x \<Longrightarrow> x = TypeError"
  by (induction mbeans st rule: mbeanLoop.induct)
    (auto split: sum.splits dest: elementLoop_error)

lemma domainLoop_error: "domainLoop domains st = Inl x \<Longrightarrow> x = TypeError"
  by (induction domains st rule: domainLoop.induct)
    (auto split: sum.splits dest: mbeanLoop_error)

lemma queryYaml_error: "queryYaml jmxJSON = Inl x \<Longrightarrow> x = TypeError"
  by (auto simp: queryYaml_def split: option.splits dest: domainLoop_error)

lemma mbeanLoop_flat:
  "list_all (\<lambda>(mbean, elements). elements \<noteq> None) mbeans \<Longrightarrow>
   mbeanLoop mbeans st = elementLoop (mbeanElements mbeans) st"
  by (induction mbeans st rule: mbeanLoop.induct)
    (auto simp: mbeanElements_def elementLoop_append split: sum.splits)

lemma mbeanLoop_absent:
  "\<not> list_all (\<lambda>(mbean, elements). elements \<noteq> None) mbeans \<Longrightarrow>
   mbeanLoop mbeans st = Inl TypeError"
  by (induction mbeans st rule: mbeanLoop.induct)
    (auto split: sum.splits dest: elementLoop_error)

lemma domainLoop_flat:
  "list_all (\<lambda>(domain, mbeans).
      (case mbeans of
         None \<Rightarrow> False
       | Some mbs \<Rightarrow> list_all (\<lambda>(mbean, elements). elements \<noteq> None) mbs)) domains \<Longrightarrow>
   domainLoop domains st = elementLoop (domainElements domains) st"
  by (induction domains st rule: domainLoop.induct)
    (auto simp: domainElements_def elementLoop_append mbeanLoop_flat split: sum.splits)

lemma domainLoop_absent:
  "\<not> list_all (\<lambda>(domain, mbeans).
      (case mbeans of
         None \<Rightarrow> False
       | Some mbs \<Rightarrow> list_all (\<lambda>(mbean, elements). elements \<noteq> None) mbs)) domains \<Longrightarrow>
   domainLoop domains st = Inl TypeError"
  by (induction domains st rule: domainLoop.induct)
    (auto split: sum.splits dest: mbeanLoop_error simp: mbeanLoop_absent)

lemma queryYaml_flat:
  "containersPresent jmxJSON \<Longrightarrow>
   queryYaml jmxJSON = elementLoop (scrapedElements jmxJSON) (0, 0, initialYaml)"
  by (auto simp: containersPresent_def queryYaml_def scrapedElements_def domainLoop_flat
      split: option.splits)

lemma queryYaml_absent: "\<not> containersPresent jmxJSON \<Longrightarrow> queryYaml jmxJSON = Inl TypeError"
  by (auto simp: containersPresent_def queryYaml_def domainLoop_absent split: option.splits)

lemma queryYaml_present: "queryYaml jmxJSON = Inr st \<Longrightarrow> containersPresent jmxJSON"
  using queryYaml_absent[of jmxJSON] by auto



text \<open>What the loops write, as one expression.\<close>

lemma propertiesLoop_text:
  "propertiesLoop props y =
     y @ concat (map (\<lambda>(key, v).
           ''          - key: '' @ toLowerCase key @ newline
           @ ''            value: property:'' @ key @ newline) props)"
  by (induction props arbitrary: y) auto

lemma dimensionLoop_text:
  "dimensionLoop ms y = Inr d \<Longrightarrow>
   d = y @ concat (map (\<lambda>n.
           ''          - key: '' @ toLowerCase n @ newline
           @ ''            value: attribute:'' @ n @ newline)
         (List.map_filter (\<lambda>metric. if numeric metric then None else name metric) ms))"
proof (induction ms arbitrary: y)
  case Nil
  then show ?case by (simp add: List.map_filter_simps)
next
  case (Cons m ms)
  let ?X = "\<lambda>n. ''          - key: '' @ toLowerCase n @ newline
           @ ''            value: attribute:'' @ n @ newline"
  show ?case
  proof (cases "numeric m")
    case True
    with Cons.prems have "dimensionLoop ms y = Inr d" by simp
    from Cons.IH[OF this] True show ?thesis by (simp add: List.map_filter_simps)
  next
    case False
    with Cons.prems obtain n where n: "name m = Some n"
      by (cases "name m") auto
    with Cons.prems False have "dimensionLoop ms (y @ ?X n) = Inr d" by simp
    from Cons.IH[OF this] have "d = (y @ ?X n) @ concat (map ?X
        (List.map_filter (\<lambda>metric. if numeric metric then None else name metric) ms))" .
    then show ?thesis using False n by (simp add: List.map_filter_simps)
  qed
qed

lemma metricLoop_text:
  "metricLoop p ms (h, y) = Inr (h', y') \<Longrightarrow>
   y' = y @ concat (map (\<lambda>n.
              ''          - key: '' @ trueMetricKey p n @ newline
              @ ''            type: gauge '' @ newline
              @ ''            value: attribute:'' @ n @ newline)
            (List.map_filter (\<lambda>metric. if numeric metric then name metric else None) ms))"
proof (induction ms arbitrary: h y)
  case Nil
  then show ?case by (simp add: List.map_filter_simps)
next
  case (Cons m ms)
  let ?X = "\<lambda>n. ''          - key: '' @ trueMetricKey p n @ newline
              @ ''            type: gauge '' @ newline
              @ ''            value: attribute:'' @ n @ newline"
  show ?case
  proof (cases "numeric m")
    case False
    with Cons.prems have "metricLoop p ms (h, y) = Inr (h', y')" by simp
    from Cons.IH[OF this] False show ?thesis by (simp add: List.map_filter_simps)
  next
    case True
    with Cons.prems obtain n where n: "name m = Some n"
      by (cases "name m") auto
    with Cons.prems True have "metricLoop p ms (True, y @ ?X n) = Inr (h', y')" by simp
    from Cons.IH[OF this] have "y' = (y @ ?X n) @ concat (map ?X
        (List.map_filter (\<lambda>metric. if numeric metric then name metric else None) ms))" .
    then show ?thesis using True n by (simp add: List.map_filter_simps)
  qed
qed

lemma map_filter_no_numeric:
  "\<not> list_ex numeric ms \<Longrightarrow>
   List.map_filter (\<lambda>metric. if numeric metric then name metric else None) ms = []"
  by (induction ms) (auto simp: List.map_filter_simps)

lemma entryText_parts:
  "entryText L p props ms =
     subgroupHead L p
     @ concat (map (\<lambda>(key, v).
           ''          - key: '' @ toLowerCase key @ newline
           @ ''            value: property:'' @ key @ newline) props)
     @ concat (map (\<lambda>n.
           ''          - key: '' @ toLowerCase n @ newline
           @ ''            value: attribute:'' @ n @ newline)
         (List.map_filter (\<lambda>metric. if numeric metric then None else name metric) ms))
     @ (''         metrics: '' @ newline)
     @ (if list_ex numeric ms then
          concat (map (\<lambda>n.
              ''          - key: '' @ trueMetricKey p n @ newline
              @ ''            type: gauge '' @ newline
              @ ''            value: attribute:'' @ n @ newline)
            (List.map_filter (\<lambda>metric. if numeric metric then name metric else None) ms))
        else constMetric)"
  by (simp add: entryText_def subgroupHead_def constMetric_def)

lemma subgroupYaml_text:
  assumes "subgroupYaml L e y = Inr t"
  shows "\<exists>p props ms. fullPath e = Some p \<and> properties e = Some props \<and>
     metrics e = Some ms \<and> t = y @ entryText L p props ms"
proof -
  from assms obtain p props ms where fp: "fullPath e = Some p"
    and pr: "properties e = Some props" and ms: "metrics e = Some ms"
    by (auto simp: subgroupYaml_def split: option.splits)
  define M where "M = ''         metrics: '' @ newline"
  note f = subgroupYaml_fields[OF fp pr ms, of L y, folded M_def]
  from assms obtain d
    where d: "dimensionLoop ms (propertiesLoop props (y @ subgroupHead L p)) = Inr d"
    unfolding f by (auto split: sum.splits)
  from assms obtain h t' where m: "metricLoop p ms (False, d @ M) = Inr (h, t')"
    unfolding f d by (auto split: sum.splits)
  have h: "h = list_ex numeric ms" using metricLoop_hasMetric[OF m] by simp
  have t: "t = (if \<not> h then t' @ constMetric else t')"
    using assms unfolding f d using m by simp
  note d' = dimensionLoop_text[OF d, unfolded propertiesLoop_text[of props "y @ subgroupHead L p"]]
  note t' = metricLoop_text[OF m]
  have "t = y @ entryText L p props ms"
    unfolding t h t' d' entryText_parts M_def by (simp add: map_filter_no_numeric)
  with fp pr ms show ?thesis by blast
qed

lemma subgroupOf_I1: "subgroupYaml ''dimensions: '' e [] = Inr t \<Longrightarrow> subgroupOf e t"
  by (drule subgroupYaml_text) (auto simp: subgroupOf_def)

lemma subgroupOf_I2: "subgroupYaml ''dimensions : '' e [] = Inr t \<Longrightarrow> subgroupOf e t"
  by (drule subgroupYaml_text) (auto simp: subgroupOf_def)

lemma elementLoop_structure:
  "elementLoop es (g, s, y) = Inr (g', s', y') \<Longrightarrow>
   \<exists>ts hs. list_all2 subgroupOf es ts \<and> length hs = length ts \<and>
     list_all groupHeadOrNothing hs \<and> y' = y @ concat (map2 (@) hs ts)"
proof (induction es arbitrary: g s y)
  case Nil
  then show ?case by simp
next
  case (Cons e es)
  show ?case
  proof (cases "s < 10")
    case True
    from Cons.prems obtain t where t: "subgroupYaml ''dimensions: '' e [] = Inr t"
      and rest: "elementLoop es (g, s + 1, y @ t) = Inr (g', s', y')"
      by (auto simp: elementStep_lt[OF True] split: sum.splits)
    from Cons.IH[OF rest] obtain ts hs where ih: "list_all2 subgroupOf es ts"
      "length hs = length ts" "list_all groupHeadOrNothing hs"
      "y' = (y @ t) @ concat (map2 (@) hs ts)"
      by blast
    have "list_all2 subgroupOf (e # es) (t # ts)"
      using t ih(1) by (simp add: subgroupOf_I1)
    moreover have "length ([] # hs) = length (t # ts)" using ih(2) by simp
    moreover have "list_all groupHeadOrNothing ([] # hs)"
      using ih(3) by (simp add: groupHeadOrNothing_def)
    moreover have "y' = y @ concat (map2 (@) ([] # hs) (t # ts))" using ih(4) by simp
    ultimately show ?thesis by blast
  next
    case False
    from Cons.prems obtain t where t: "subgroupYaml ''dimensions : '' e [] = Inr t"
      and rest: "elementLoop es (g + 1, 1, y @ groupHead (g + 1) @ t) = Inr (g', s', y')"
      by (auto simp: elementStep_ge[OF False] split: sum.splits)
    from Cons.IH[OF rest] obtain ts hs where ih: "list_all2 subgroupOf es ts"
      "length hs = length ts" "list_all groupHeadOrNothing hs"
      "y' = (y @ groupHead (g + 1) @ t) @ concat (map2 (@) hs ts)"
      by blast
    have "list_all2 subgroupOf (e # es) (t # ts)"
      using t ih(1) by (simp add: subgroupOf_I2)
    moreover have "length (groupHead (g + 1) # hs) = length (t # ts)" using ih(2) by simp
    moreover have "list_all groupHeadOrNothing (groupHead (g + 1) # hs)"
      using ih(3) by (auto simp: groupHeadOrNothing_def)
    moreover have "y' = y @ concat (map2 (@) (groupHead (g + 1) # hs) (t # ts))"
      using ih(4) by simp
    ultimately show ?thesis by blast
  qed
qed

section \<open>The fragment, line by line\<close>




































section \<open>Groups and subgroups\<close>














text \<open>
  Claim C6. For an element none of whose metrics is numeric, the subgroup entry is what
  the head, the properties and the dimensions give, then the line \<open>metrics:\<close>, then one
  entry and nothing else: key \<open>jmx.const.value\<close>, type \<open>gauge\<close>, value \<open>const:1\<close>. This holds
  in both branches of the loop body.
\<close>

theorem no_numeric_metric_fallback:
  assumes "fullPath element = Some p" "properties element = Some props"
    "metrics element = Some ms" "\<not> list_ex numeric ms"
    "subgroupYaml dimensionsLine element y = Inr t"
  shows "\<exists>d. dimensionLoop ms (propertiesLoop props (y @ subgroupHead dimensionsLine p)) = Inr d \<and>
     t = d @ ''         metrics: '' @ newline
           @ ''          - key: jmx.const.value '' @ newline
           @ ''            type: gauge '' @ newline
           @ ''            value: const:1 '' @ newline"
proof -
  note f = subgroupYaml_fields[OF assms(1-3), of dimensionsLine y]
  from assms(5) obtain d
    where d: "dimensionLoop ms (propertiesLoop props (y @ subgroupHead dimensionsLine p)) = Inr d"
    unfolding f by (auto split: sum.splits)
  have m: "metricLoop p ms (False, d @ ''         metrics: '' @ newline) =
      Inr (False, d @ ''         metrics: '' @ newline)"
    using assms(4) by (rule metricLoop_no_numeric)
  from assms(5) have "t = (d @ ''         metrics: '' @ newline) @ constMetric"
    unfolding f d using m by simp
  then have "t = d @ ''         metrics: '' @ newline
           @ ''          - key: jmx.const.value '' @ newline
           @ ''            type: gauge '' @ newline
           @ ''            value: const:1 '' @ newline"
    by (simp add: constMetric_def)
  with d show ?thesis by blast
qed

theorem no_numeric_metric_fallback_witness:
  "\<not> list_ex numeric [\<lparr>name = Some ''State'', numeric = False\<rparr>] \<and>
   subgroupYaml ''dimensions: ''
     \<lparr>fullPath = Some ''D:type=A'', properties = Some [],
      metrics = Some [\<lparr>name = Some ''State'', numeric = False\<rparr>]\<rparr> [] =
     Inr (''       - subgroup: D:type=A'' @ newline
        @ ''         query: D:type=A'' @ newline
        @ ''         dimensions: '' @ newline
        @ ''          - key: state'' @ newline
        @ ''            value: attribute:State'' @ newline
        @ ''         metrics: '' @ newline
        @ ''          - key: jmx.const.value '' @ newline
        @ ''            type: gauge '' @ newline
        @ ''            value: const:1 '' @ newline) \<and>
   (\<exists>d. dimensionLoop [\<lparr>name = Some ''State'', numeric = False\<rparr>]
          (propertiesLoop [] ([] @ subgroupHead ''dimensions: '' ''D:type=A'')) = Inr d \<and>
      ''       - subgroup: D:type=A'' @ newline
        @ ''         query: D:type=A'' @ newline
        @ ''         dimensions: '' @ newline
        @ ''          - key: state'' @ newline
        @ ''            value: attribute:State'' @ newline
        @ ''         metrics: '' @ newline
        @ ''          - key: jmx.const.value '' @ newline
        @ ''            type: gauge '' @ newline
        @ ''            value: const:1 '' @ newline =
      d @ ''         metrics: '' @ newline
        @ ''          - key: jmx.const.value '' @ newline
        @ ''            type: gauge '' @ newline
        @ ''            value: const:1 '' @ newline)"
proof -
  let ?ms = "[\<lparr>name = Some ''State'', numeric = False\<rparr>]"
  let ?e = "\<lparr>fullPath = Some ''D:type=A'', properties = Some [], metrics = Some ?ms\<rparr>"
  have h4: "\<not> list_ex numeric ?ms" by simp
  have h5: "subgroupYaml ''dimensions: '' ?e [] =
     Inr (''       - subgroup: D:type=A'' @ newline
        @ ''         query: D:type=A'' @ newline
        @ ''         dimensions: '' @ newline
        @ ''          - key: state'' @ newline
        @ ''            value: attribute:State'' @ newline
        @ ''         metrics: '' @ newline
        @ ''          - key: jmx.const.value '' @ newline
        @ ''            type: gauge '' @ newline
        @ ''            value: const:1 '' @ newline)"
    by code_simp
  have h1: "fullPath ?e = Some ''D:type=A''" and h2: "properties ?e = Some []"
    and h3: "metrics ?e = Some ?ms"
    by simp_all
  from no_numeric_metric_fallback[OF h1 h2 h3 h4 h5] h4 h5 show ?thesis by blast
qed

section \<open>Malformed scrape data\<close>







section \<open>Running the provider again\<close>

lemma initialYaml_nonempty: "initialYaml \<noteq> []"
  by (simp add: initialYaml_def)

lemma queryYaml_nonempty: "queryYaml jmxJSON = Inr (g, s, y) \<Longrightarrow> y \<noteq> []"
proof -
  assume "queryYaml jmxJSON = Inr (g, s, y)"
  moreover from this have "containersPresent jmxJSON" by (rule queryYaml_present)
  ultimately have "elementLoop (scrapedElements jmxJSON) (0, 0, initialYaml) = Inr (g, s, y)"
    by (simp only: queryYaml_flat)
  from elementLoop_structure[OF this] obtain z where "y = initialYaml @ z" by blast
  then show ?thesis using initialYaml_nonempty by simp
qed

lemma provideCodeActions_offer:
  assumes "provideCodeActions gpb ind (Some scraped) document r = Inr [action]"
  shows "\<exists>lineText g s y. testJmx (getText document) \<and>
      lineAt document (line (start r)) = Inr lineText \<and> includesStr lineText ''jmx:'' \<and>
      queryYaml scraped = Inr (g, s, y) \<and>
      createInsertAction ind
        (''Insert JMX data for '' @ (case process_name scraped of None \<Rightarrow> [] | Some p \<Rightarrow> p))
        y document r = Inr (Some action)"
  using assms
  by (auto simp: provideCodeActions_def createQueryInsertions_def Let_def
      simp del: includesStr.simps
      split: if_splits sum.splits option.splits prod.splits)

text \<open>
  Claim C5 does not hold of the code: the text that \<open>createQueryInsertions\<close> builds does
  not depend on the document. When a run offers an insertion, a run on any document with
  the same anchor line and a line that starts with \<open>jmx:\<close> (the document after the
  insertion is one) offers the insertion of the same, non-empty text again.
\<close>

theorem second_run_offers_again:
  assumes run: "provideCodeActions gpb ind (Some scraped) document r = Inr [action]"
    and anchor: "lineAt document' (line (start r)) = lineAt document (line (start r))"
    and jmx: "testJmx (getText document')"
  shows "\<exists>action' g s y indent.
     provideCodeActions gpb ind (Some scraped) document' r = Inr [action'] \<and>
     queryYaml scraped = Inr (g, s, y) \<and> y \<noteq> [] \<and>
     newText (edit action) =
       ind (if lineCount document = line (start r) + 1 then newline @ y else y) indent \<and>
     newText (edit action') =
       ind (if lineCount document' = line (start r) + 1 then newline @ y else y) indent"
proof -
  from provideCodeActions_offer[OF run] obtain lineText g s y
    where l: "lineAt document (line (start r)) = Inr lineText"
      and i: "includesStr lineText ''jmx:''"
      and q: "queryYaml scraped = Inr (g, s, y)"
      and c: "createInsertAction ind
        (''Insert JMX data for '' @ (case process_name scraped of None \<Rightarrow> [] | Some p \<Rightarrow> p))
        y document r = Inr (Some action)"
    by blast
  from createInsertAction_Some[OF c] l obtain indent
    where e: "execLetter lineText = Some indent"
      and a: "newText (edit action) =
        ind (if lineCount document = line (start r) + 1 then newline @ y else y) indent"
    by auto
  define action' where "action' = \<lparr>title = ''Insert JMX data for ''
          @ (case process_name scraped of None \<Rightarrow> [] | Some p \<Rightarrow> p),
      kind = QuickFix,
      edit = \<lparr>editUri = uri document',
        insertPosition = \<lparr>line = line (start r) + 1, character = 0\<rparr>,
        newText = ind (if lineCount document' = line (start r) + 1 then newline @ y else y)
          indent\<rparr>\<rparr>"
  have l': "lineAt document' (line (start r)) = Inr lineText" using anchor l by simp
  have c': "createInsertAction ind
        (''Insert JMX data for '' @ (case process_name scraped of None \<Rightarrow> [] | Some p \<Rightarrow> p))
        y document' r = Inr (Some action')"
    using l' e by (simp add: createInsertAction_def Let_def action'_def)
  have "provideCodeActions gpb ind (Some scraped) document' r = Inr [action']"
    using jmx l' i q c'
    by (simp add: provideCodeActions_def createQueryInsertions_def Let_def
        del: includesStr.simps)
  moreover have "newText (edit action') =
       ind (if lineCount document' = line (start r) + 1 then newline @ y else y) indent"
    by (simp add: action'_def)
  ultimately show ?thesis using q a queryYaml_nonempty[OF q] by blast
qed

theorem second_run_offers_again_witness:
  "provideCodeActions (\<lambda>l t. []) (\<lambda>t n. t) (Some \<lparr>jmxData = Some [(''D'', Some [(''A'', Some
       [\<lparr>fullPath = Some ''D:type=A'', properties = Some [],
          metrics = Some [\<lparr>name = Some ''Count'', numeric = True\<rparr>]\<rparr>])])],
     process_name = Some ''app''\<rparr>) \<lparr>uri = ''u'', lines = [''jmx:'', ''x:'']\<rparr> \<lparr>start = \<lparr>line = 0, character = 0\<rparr>, endPos = \<lparr>line = 0, character = 0\<rparr>\<rparr> = Inr [\<lparr>title = ''Insert JMX data for app'', kind = QuickFix,
       edit = \<lparr>editUri = ''u'', insertPosition = \<lparr>line = 1, character = 0\<rparr>,
         newText = ''  groups:'' @ newline @ ''  - group: group_0'' @ newline @ ''    subgroups: '' @ newline
       @ ''       - subgroup: D:type=A'' @ newline @ ''         query: D:type=A'' @ newline
       @ ''         dimensions: '' @ newline @ ''         metrics: '' @ newline
       @ ''          - key: D.type_A.count'' @ newline @ ''            type: gauge '' @ newline
       @ ''            value: attribute:Count'' @ newline\<rparr>\<rparr>] \<and>
   lineAt \<lparr>uri = ''u'', lines = [''jmx:'',
       ''  groups:'', ''  - group: group_0'', ''    subgroups: '',
       ''       - subgroup: D:type=A'', ''         query: D:type=A'',
       ''         dimensions: '', ''         metrics: '',
       ''          - key: D.type_A.count'', ''            type: gauge '',
       ''            value: attribute:Count'', ''x:'']\<rparr> 0 = lineAt \<lparr>uri = ''u'', lines = [''jmx:'', ''x:'']\<rparr> 0 \<and>
   testJmx (getText \<lparr>uri = ''u'', lines = [''jmx:'',
       ''  groups:'', ''  - group: group_0'', ''    subgroups: '',
       ''       - subgroup: D:type=A'', ''         query: D:type=A'',
       ''         dimensions: '', ''         metrics: '',
       ''          - key: D.type_A.count'', ''            type: gauge '',
       ''            value: attribute:Count'', ''x:'']\<rparr>) \<and>
   (\<exists>action'. provideCodeActions (\<lambda>l t. []) (\<lambda>t n. t) (Some \<lparr>jmxData = Some [(''D'', Some [(''A'', Some
       [\<lparr>fullPath = Some ''D:type=A'', properties = Some [],
          metrics = Some [\<lparr>name = Some ''Count'', numeric = True\<rparr>]\<rparr>])])],
     process_name = Some ''app''\<rparr>) \<lparr>uri = ''u'', lines = [''jmx:'',
       ''  groups:'', ''  - group: group_0'', ''    subgroups: '',
       ''       - subgroup: D:type=A'', ''         query: D:type=A'',
       ''         dimensions: '', ''         metrics: '',
       ''          - key: D.type_A.count'', ''            type: gauge '',
       ''            value: attribute:Count'', ''x:'']\<rparr> \<lparr>start = \<lparr>line = 0, character = 0\<rparr>, endPos = \<lparr>line = 0, character = 0\<rparr>\<rparr> = Inr [action'] \<and>
      newText (edit action') = ''  groups:'' @ newline @ ''  - group: group_0'' @ newline @ ''    subgroups: '' @ newline
       @ ''       - subgroup: D:type=A'' @ newline @ ''         query: D:type=A'' @ newline
       @ ''         dimensions: '' @ newline @ ''         metrics: '' @ newline
       @ ''          - key: D.type_A.count'' @ newline @ ''            type: gauge '' @ newline
       @ ''            value: attribute:Count'' @ newline)"
proof -
  let ?S = "\<lparr>jmxData = Some [(''D'', Some [(''A'', Some
       [\<lparr>fullPath = Some ''D:type=A'', properties = Some [],
          metrics = Some [\<lparr>name = Some ''Count'', numeric = True\<rparr>]\<rparr>])])],
     process_name = Some ''app''\<rparr>"
  let ?D = "\<lparr>uri = ''u'', lines = [''jmx:'', ''x:'']\<rparr>"
  let ?D2 = "\<lparr>uri = ''u'', lines = [''jmx:'',
       ''  groups:'', ''  - group: group_0'', ''    subgroups: '',
       ''       - subgroup: D:type=A'', ''         query: D:type=A'',
       ''         dimensions: '', ''         metrics: '',
       ''          - key: D.type_A.count'', ''            type: gauge '',
       ''            value: attribute:Count'', ''x:'']\<rparr>"
  let ?R = "\<lparr>start = \<lparr>line = 0, character = 0\<rparr>, endPos = \<lparr>line = 0, character = 0\<rparr>\<rparr>"
  let ?A = "\<lparr>title = ''Insert JMX data for app'', kind = QuickFix,
       edit = \<lparr>editUri = ''u'', insertPosition = \<lparr>line = 1, character = 0\<rparr>,
         newText = ''  groups:'' @ newline @ ''  - group: group_0'' @ newline @ ''    subgroups: '' @ newline
       @ ''       - subgroup: D:type=A'' @ newline @ ''         query: D:type=A'' @ newline
       @ ''         dimensions: '' @ newline @ ''         metrics: '' @ newline
       @ ''          - key: D.type_A.count'' @ newline @ ''            type: gauge '' @ newline
       @ ''            value: attribute:Count'' @ newline\<rparr>\<rparr>"
  have run: "provideCodeActions (\<lambda>l t. []) (\<lambda>t n. t) (Some ?S) ?D ?R = Inr [?A]"
    by code_simp
  have anchor: "lineAt ?D2 (line (start ?R)) = lineAt ?D (line (start ?R))"
    by (simp add: lineAt_def lineCount_def)
  have jmx: "testJmx (getText ?D2)"
    by code_simp
  from second_run_offers_again[OF run anchor jmx] obtain action' g s y indent
    where 1: "provideCodeActions (\<lambda>l t. []) (\<lambda>t n. t) (Some ?S) ?D2 ?R = Inr [action']"
      and 2: "newText (edit ?A) = (if lineCount ?D = line (start ?R) + 1 then newline @ y else y)"
      and 3: "newText (edit action') =
        (if lineCount ?D2 = line (start ?R) + 1 then newline @ y else y)"
    by blast
  from 2 3 have "newText (edit action') = newText (edit ?A)"
    by (simp add: lineCount_def)
  then have "newText (edit action') = ''  groups:'' @ newline @ ''  - group: group_0'' @ newline @ ''    subgroups: '' @ newline
       @ ''       - subgroup: D:type=A'' @ newline @ ''         query: D:type=A'' @ newline
       @ ''         dimensions: '' @ newline @ ''         metrics: '' @ newline
       @ ''          - key: D.type_A.count'' @ newline @ ''            type: gauge '' @ newline
       @ ''            value: attribute:Count'' @ newline" by simp
  with 1 run anchor jmx show ?thesis by (simp del: includesStr.simps)
qed

end
